theory Spec2Isabelle
  imports Complex_Main "HOL-Library.Word" "HOL-Library.Signed_Division"
begin

unbundle bit_operations_syntax

section \<open>Conventions of the embedding\<close>

text \<open>
  The Go sources are embedded function by function, with the state every method mutates
  passed in and returned.

  \<^item> \<open>uint64\<close>, \<open>uint32\<close> and \<open>uint16\<close> are words of that width (arithmetic wraps).
  \<^item> \<open>int32\<close> and \<open>int64\<close> are words as well, read through \<open>sint\<close> wherever the code
    compares or divides them; \<open>sdiv\<close> on \<open>int\<close> is Go's division, which truncates
    towards zero.
  \<^item> Go's \<open>int\<close> is \<open>int\<close>: the values the simulator computes with it are far from the
    64-bit bounds.
  \<^item> \<open>float64\<close> is idealised as \<open>real\<close>: arithmetic is exact, and there is no NaN, no
    infinity and no rounding error. Concrete inputs in this development are chosen away
    from the points where a rounding error of the hardware could change a comparison.
  \<^item> A run-time panic is a value of \<open>go_error\<close>, on the left of a sum.
  \<^item> Mutexes are left out: every method is embedded as one atomic step.
\<close>

type_synonym float64 = real
type_synonym uint64 = "64 word"
type_synonym uint32 = "32 word"
type_synonym uint16 = "16 word"
type_synonym int32 = "32 word"
type_synonym int64 = "64 word"
type_synonym byte = char

text \<open>
  \<open>DivideByZero\<close> is Go's run-time panic "integer divide by zero". \<open>InvalidBound\<close> is the
  error kind the specification names for the generator; no code path constructs it.
\<close>

datatype go_error = InvalidBound | DivideByZero

text \<open>\<open>math.Round\<close>: nearest integer, halves away from zero.\<close>

definition Round :: "float64 \<Rightarrow> int" where
  "Round x = (if 0 \<le> x then \<lfloor>x + 1 / 2\<rfloor> else - \<lfloor>- x + 1 / 2\<rfloor>)"

section \<open>The generator (engine/random.go)\<close>

record RNG =
  state :: uint64
  inc :: uint64
  hasSpare :: bool
  spare :: float64

definition step :: "RNG \<Rightarrow> RNG" where
  "step r = r\<lparr>state := state r * 6364136223846793005 + inc r\<rparr>"

text \<open>
  \<open>NewRNG\<close> reads the clock when the seed is 0; the reading \<open>time.Now().UnixNano()\<close> is
  the second argument.
\<close>

definition NewRNG :: "uint64 \<Rightarrow> uint64 \<Rightarrow> RNG" where
  "NewRNG seed0 now =
     (let seed = (if seed0 = 0 then now else seed0);
          r = \<lparr>state = 0, inc = push_bit 1 seed OR 1, hasSpare = False, spare = 0\<rparr>;
          r = step r;
          r = r\<lparr>state := state r + seed\<rparr>
      in step r)"

definition Uint32 :: "RNG \<Rightarrow> uint32 \<times> RNG" where
  "Uint32 r =
     (let old = state r;
          xorshifted = (ucast (drop_bit 27 (drop_bit 18 old XOR old)) :: uint32);
          rot = (ucast (drop_bit 59 old) :: uint32)
      in (drop_bit (unat rot) xorshifted OR push_bit (unat ((- rot) AND 31)) xorshifted,
          step r))"

definition Float64 :: "RNG \<Rightarrow> float64 \<times> RNG" where
  "Float64 r = (let (u, r') = Uint32 r in (real (unat u) / 2 ^ 32, r'))"

text \<open>
  \<open>Intn\<close>: the guard returns 0 for \<open>n \<le> 0\<close> before anything is drawn. Otherwise a word
  is drawn and reduced modulo \<open>uint32(n)\<close>, the low 32 bits of \<open>n\<close>; when those are all
  zero the remainder operation panics.
\<close>

definition Intn :: "RNG \<Rightarrow> int \<Rightarrow> go_error + (int \<times> RNG)" where
  "Intn r n =
     (if n \<le> 0 then Inr (0, r)
      else let (u, r') = Uint32 r; d = (word_of_int n :: uint32)
           in if d = 0 then Inl DivideByZero else Inr (uint (u mod d), r'))"

definition IntRange :: "RNG \<Rightarrow> int \<Rightarrow> int \<Rightarrow> go_error + (int \<times> RNG)" where
  "IntRange r lo hi =
     (if lo \<ge> hi then Inr (lo, r)
      else case Intn r (hi - lo + 1) of
             Inl e \<Rightarrow> Inl e
           | Inr (v, r') \<Rightarrow> Inr (lo + v, r'))"

text \<open>The second loop of \<open>WeightedPick\<close>, from index \<open>i\<close> with the running sum.\<close>

fun pickLoop :: "float64 \<Rightarrow> float64 \<Rightarrow> int \<Rightarrow> float64 list \<Rightarrow> int option" where
  "pickLoop target cumulative i [] = None"
| "pickLoop target cumulative i (w # ws) =
     (if target < cumulative + w then Some i
      else pickLoop target (cumulative + w) (i + 1) ws)"

definition WeightedPick :: "RNG \<Rightarrow> float64 list \<Rightarrow> int \<times> RNG" where
  "WeightedPick r weights =
     (let total = foldl (+) 0 weights;
          (f, r') = Float64 r;
          target = f * total
      in case pickLoop target 0 0 weights of
           Some i \<Rightarrow> (i, r')
         | None \<Rightarrow> (int (length weights) - 1, r'))"

section \<open>The session client (session/client.go)\<close>

text \<open>
  The buffered channel \<open>sendCh\<close> is the list of the queued items, oldest first, and its
  capacity is \<open>bufferSize\<close>, the value \<open>NewClient\<close> makes the channel with. No receiver
  runs between the sends that are modelled.
\<close>

datatype Format = FormatJSON | FormatBinary

record Client =
  ID :: uint64
  format :: Format
  symbols :: "uint16 \<Rightarrow> bool"
  allSymbols :: bool
  sendCh :: "byte list list"
  bufferSize :: nat
  Dropped :: uint64

definition NewClient :: "uint64 \<Rightarrow> nat \<Rightarrow> Client" where
  "NewClient clientIDCounter n =
     \<lparr>ID = clientIDCounter + 1, format = FormatJSON, symbols = (\<lambda>_. False),
      allSymbols = False, sendCh = [], bufferSize = n, Dropped = 0\<rparr>"

text \<open>\<open>select\<close> with a \<open>default\<close> branch: the send happens only if there is room.\<close>

definition Send :: "Client \<Rightarrow> byte list \<Rightarrow> bool \<times> Client" where
  "Send c data =
     (if length (sendCh c) < bufferSize c
      then (True, c\<lparr>sendCh := sendCh c @ [data]\<rparr>)
      else (False, c\<lparr>Dropped := Dropped c + 1\<rparr>))"

definition IsSubscribed :: "Client \<Rightarrow> uint16 \<Rightarrow> bool" where
  "IsSubscribed c locate = (if allSymbols c then True else symbols c locate)"

section \<open>Messages (itch/messages.go)\<close>

type_synonym MsgType = byte

abbreviation MsgSystemEvent :: MsgType where "MsgSystemEvent \<equiv> CHR ''S''"
abbreviation MsgStockDirectory :: MsgType where "MsgStockDirectory \<equiv> CHR ''R''"
abbreviation MsgStockTradingAction :: MsgType where "MsgStockTradingAction \<equiv> CHR ''H''"
abbreviation MsgAddOrder :: MsgType where "MsgAddOrder \<equiv> CHR ''A''"
abbreviation MsgAddOrderMPID :: MsgType where "MsgAddOrderMPID \<equiv> CHR ''F''"
abbreviation MsgOrderExecuted :: MsgType where "MsgOrderExecuted \<equiv> CHR ''E''"
abbreviation MsgOrderCancel :: MsgType where "MsgOrderCancel \<equiv> CHR ''X''"
abbreviation MsgOrderDelete :: MsgType where "MsgOrderDelete \<equiv> CHR ''D''"
abbreviation MsgOrderReplace :: MsgType where "MsgOrderReplace \<equiv> CHR ''U''"
abbreviation MsgTrade :: MsgType where "MsgTrade \<equiv> CHR ''P''"

record Message =
  Type :: MsgType
  Timestamp :: int64
  StockLocate :: uint16
  TrackingNum :: uint16
  Stock :: string
  OrderRef :: uint64
  OrigOrderRef :: uint64
  Side :: byte
  Shares :: int32
  Price :: float64
  MatchNumber :: uint64
  MPID :: string
  EventCode :: byte
  TradingState :: byte
  Reserved :: byte
  MarketCategory :: byte
  FinancialStatus :: byte
  RoundLotSize :: int32
  RoundLotsOnly :: byte
  IssueClassification :: byte
  IssueSubType :: "byte \<times> byte"
  Authenticity :: byte
  ShortSaleThreshold :: byte
  IPOFlag :: byte
  LULDRefPriceTier :: byte
  ETPFlag :: byte
  ETPLeverageFactor :: int32
  InverseIndicator :: byte

text \<open>The zero value of the struct: what a composite literal leaves in the fields it omits.\<close>

definition zeroMessage :: Message where
  "zeroMessage =
     \<lparr>Type = CHR 0x00, Timestamp = 0, StockLocate = 0, TrackingNum = 0, Stock = [],
      OrderRef = 0, OrigOrderRef = 0, Side = CHR 0x00, Shares = 0, Price = 0,
      MatchNumber = 0, MPID = [], EventCode = CHR 0x00, TradingState = CHR 0x00,
      Reserved = CHR 0x00, MarketCategory = CHR 0x00, FinancialStatus = CHR 0x00,
      RoundLotSize = 0, RoundLotsOnly = CHR 0x00, IssueClassification = CHR 0x00,
      IssueSubType = (CHR 0x00, CHR 0x00), Authenticity = CHR 0x00,
      ShortSaleThreshold = CHR 0x00, IPOFlag = CHR 0x00, LULDRefPriceTier = CHR 0x00,
      ETPFlag = CHR 0x00, ETPLeverageFactor = 0, InverseIndicator = CHR 0x00\<rparr>"

section \<open>Orders and the book (orderbook/order.go, orderbook/book.go)\<close>

abbreviation SideBuy :: byte where "SideBuy \<equiv> CHR ''B''"
abbreviation SideSell :: byte where "SideSell \<equiv> CHR ''S''"

record Order =
  ID :: uint64
  Locate :: uint16
  Side :: byte
  Price :: float64
  Shares :: int32
  Priority :: int32
  MPID :: string

definition MaxLevels :: nat where "MaxLevels = 10"
definition OrdersPerLevel :: nat where "OrdersPerLevel = 3"

record PriceLevel =
  Price :: float64
  Orders :: "Order list"

text \<open>
  The book keeps pointers to its orders, in the index \<open>orderMap\<close> and in the levels.
  Here both hold the order itself, and the one method that writes through the pointer,
  \<open>ReduceOrder\<close>, writes both copies.
\<close>

record Book =
  Locate :: uint16
  TickSize :: float64
  Bids :: "PriceLevel list"
  Asks :: "PriceLevel list"
  orderMap :: "uint64 \<rightharpoonup> Order"

definition NewBook :: "uint16 \<Rightarrow> float64 \<Rightarrow> Book" where
  "NewBook locate tick =
     \<lparr>Locate = locate, TickSize = tick, Bids = [], Asks = [], orderMap = Map.empty\<rparr>"

text \<open>The first loop of \<open>addToSide\<close>: append to the first level with the order's price.\<close>

fun appendToLevel :: "PriceLevel list \<Rightarrow> Order \<Rightarrow> PriceLevel list option" where
  "appendToLevel [] ord = None"
| "appendToLevel (l # ls) ord =
     (if PriceLevel.Price l = Order.Price ord
      then Some (l\<lparr>Orders := Orders l @ [ord]\<rparr> # ls)
      else map_option ((#) l) (appendToLevel ls ord))"

text \<open>
  \<open>sort.Slice\<close> by price. On the at most twelve levels a side ever holds, Go sorts by
  insertion, which keeps levels of equal price in their order, as \<open>sort_key\<close> does.
\<close>

definition sortLevels :: "bool \<Rightarrow> PriceLevel list \<Rightarrow> PriceLevel list" where
  "sortLevels descending levels =
     (if descending then sort_key (\<lambda>l. - PriceLevel.Price l) levels
      else sort_key PriceLevel.Price levels)"

definition addToSide :: "PriceLevel list \<Rightarrow> Order \<Rightarrow> bool \<Rightarrow> PriceLevel list" where
  "addToSide levels ord descending =
     (case appendToLevel levels ord of
        Some levels' \<Rightarrow> levels'
      | None \<Rightarrow>
          let levels = levels @ [\<lparr>Price = Order.Price ord, Orders = [ord]\<rparr>];
              levels = sortLevels descending levels
          in if length levels > MaxLevels then take MaxLevels levels else levels)"

fun removeFromOrders :: "Order list \<Rightarrow> uint64 \<Rightarrow> Order list option" where
  "removeFromOrders [] orderID = None"
| "removeFromOrders (x # xs) orderID =
     (if ID x = orderID then Some xs else map_option ((#) x) (removeFromOrders xs orderID))"

fun removeFromSide :: "PriceLevel list \<Rightarrow> uint64 \<Rightarrow> PriceLevel list" where
  "removeFromSide [] orderID = []"
| "removeFromSide (l # ls) orderID =
     (case removeFromOrders (Orders l) orderID of
        Some os \<Rightarrow> (if os = [] then ls else l\<lparr>Orders := os\<rparr> # ls)
      | None \<Rightarrow> l # removeFromSide ls orderID)"

text \<open>
  The write \<open>o.Shares = v\<close> through the pointer, as seen from the levels: the first order
  with that id on the side, which is the indexed order whenever ids are unique.
\<close>

fun setSharesInOrders :: "Order list \<Rightarrow> uint64 \<Rightarrow> int32 \<Rightarrow> Order list option" where
  "setSharesInOrders [] orderID v = None"
| "setSharesInOrders (x # xs) orderID v =
     (if ID x = orderID then Some (x\<lparr>Order.Shares := v\<rparr> # xs)
      else map_option ((#) x) (setSharesInOrders xs orderID v))"

fun setSharesInSide :: "PriceLevel list \<Rightarrow> uint64 \<Rightarrow> int32 \<Rightarrow> PriceLevel list" where
  "setSharesInSide [] orderID v = []"
| "setSharesInSide (l # ls) orderID v =
     (case setSharesInOrders (Orders l) orderID v of
        Some os \<Rightarrow> l\<lparr>Orders := os\<rparr> # ls
      | None \<Rightarrow> l # setSharesInSide ls orderID v)"

definition BestBid :: "Book \<Rightarrow> float64" where
  "BestBid b = (case Bids b of [] \<Rightarrow> 0 | l # _ \<Rightarrow> PriceLevel.Price l)"

definition BestAsk :: "Book \<Rightarrow> float64" where
  "BestAsk b = (case Asks b of [] \<Rightarrow> 0 | l # _ \<Rightarrow> PriceLevel.Price l)"

definition AddOrder :: "Book \<Rightarrow> Order \<Rightarrow> Book" where
  "AddOrder b ord =
     (let b = b\<lparr>orderMap := (orderMap b)(ID ord \<mapsto> ord)\<rparr>
      in if Order.Side ord = SideBuy then b\<lparr>Bids := addToSide (Bids b) ord True\<rparr>
         else b\<lparr>Asks := addToSide (Asks b) ord False\<rparr>)"

definition removeFromBook :: "Book \<Rightarrow> Order \<Rightarrow> uint64 \<Rightarrow> Book" where
  "removeFromBook b ord orderID =
     (let b = b\<lparr>orderMap := (orderMap b)(orderID := None)\<rparr>
      in if Order.Side ord = SideBuy then b\<lparr>Bids := removeFromSide (Bids b) orderID\<rparr>
         else b\<lparr>Asks := removeFromSide (Asks b) orderID\<rparr>)"

definition RemoveOrder :: "Book \<Rightarrow> uint64 \<Rightarrow> Order option \<times> Book" where
  "RemoveOrder b orderID =
     (case orderMap b orderID of
        None \<Rightarrow> (None, b)
      | Some ord \<Rightarrow> (Some ord, removeFromBook b ord orderID))"

definition GetOrder :: "Book \<Rightarrow> uint64 \<Rightarrow> Order option" where
  "GetOrder b orderID = orderMap b orderID"

definition ReduceOrder :: "Book \<Rightarrow> uint64 \<Rightarrow> int32 \<Rightarrow> int32 \<times> Book" where
  "ReduceOrder b orderID reduceBy =
     (case orderMap b orderID of
        None \<Rightarrow> (0, b)
      | Some ord \<Rightarrow>
          let v = Order.Shares ord - reduceBy
          in if sint v \<le> 0 then (0, removeFromBook b ord orderID)
             else (v, (if Order.Side ord = SideBuy
                       then b\<lparr>Bids := setSharesInSide (Bids b) orderID v\<rparr>
                       else b\<lparr>Asks := setSharesInSide (Asks b) orderID v\<rparr>)
                      \<lparr>orderMap := (orderMap b)(orderID \<mapsto> ord\<lparr>Order.Shares := v\<rparr>)\<rparr>))"

text \<open>
  \<open>ReplaceOrder\<close> draws the new id from the package counter \<open>orderIDCounter\<close>, which is
  passed in and returned.
\<close>

definition ReplaceOrder ::
  "Book \<Rightarrow> uint64 \<Rightarrow> uint64 \<Rightarrow> float64 \<Rightarrow> int32 \<Rightarrow> Order option \<times> Book \<times> uint64" where
  "ReplaceOrder b counter oldID newPrice newShares =
     (case orderMap b oldID of
        None \<Rightarrow> (None, b, counter)
      | Some old \<Rightarrow>
          let b = removeFromBook b old oldID;
              newOrder = \<lparr>ID = counter + 1, Locate = Order.Locate old, Side = Order.Side old,
                          Price = newPrice, Shares = newShares, Priority = 0,
                          MPID = Order.MPID old\<rparr>
          in (Some newOrder, AddOrder b newOrder, counter + 1))"

definition OrderCount :: "Book \<Rightarrow> nat" where
  "OrderCount b = card (dom (orderMap b))"

definition BidLevels :: "Book \<Rightarrow> nat" where
  "BidLevels b = length (Bids b)"

definition AskLevels :: "Book \<Rightarrow> nat" where
  "AskLevels b = length (Asks b)"

text \<open>The walk of \<open>RandomBidOrder\<close> and \<open>RandomAskOrder\<close> over the levels of one side.\<close>

definition orderAt :: "PriceLevel list \<Rightarrow> int \<Rightarrow> Order option" where
  "orderAt levels idx =
     (let os = concat (map Orders levels)
      in if 0 \<le> idx \<and> nat idx < length os then Some (os ! nat idx) else None)"

definition RandomBidOrder :: "Book \<Rightarrow> int \<Rightarrow> Order option" where
  "RandomBidOrder b idx = orderAt (Bids b) idx"

definition RandomAskOrder :: "Book \<Rightarrow> int \<Rightarrow> Order option" where
  "RandomAskOrder b idx = orderAt (Asks b) idx"

definition totalOrders :: "PriceLevel list \<Rightarrow> nat" where
  "totalOrders levels = foldl (\<lambda>n lvl. n + length (Orders lvl)) 0 levels"

definition TotalBidOrders :: "Book \<Rightarrow> int" where
  "TotalBidOrders b = int (totalOrders (Bids b))"

definition TotalAskOrders :: "Book \<Rightarrow> int" where
  "TotalAskOrders b = int (totalOrders (Asks b))"

section \<open>The order-flow simulator (orderbook/simulator.go)\<close>

definition actionWeights :: "float64 list" where
  "actionWeights = [0.30, 0.20, 0.15, 0.15, 0.20]"

definition mpids :: "string list" where
  "mpids = [''GSCO'', ''MSCO'', ''JPMS'', ''CITI'', ''BARK'', ''SUSQ'', ''VIRT'', ''CITD'']"

text \<open>
  The simulator with the two package-level counters of order.go, \<open>orderIDCounter\<close> and
  \<open>matchCounter\<close>, which its methods advance.
\<close>

record Simulator =
  rng :: RNG
  book :: Book
  locateCode :: uint16
  tickSize :: float64
  orderIDCounter :: uint64
  matchCounter :: uint64

definition NewSimulator :: "RNG \<Rightarrow> Book \<Rightarrow> uint16 \<Rightarrow> float64 \<Rightarrow> uint64 \<Rightarrow> uint64 \<Rightarrow> Simulator" where
  "NewSimulator r b locate tick orderIDs matches =
     \<lparr>rng = r, book = b, locateCode = locate, tickSize = tick,
      orderIDCounter = orderIDs, matchCounter = matches\<rparr>"

definition NextOrderID :: "Simulator \<Rightarrow> uint64 \<times> Simulator" where
  "NextOrderID s = (orderIDCounter s + 1, s\<lparr>orderIDCounter := orderIDCounter s + 1\<rparr>)"

definition NextMatchNumber :: "Simulator \<Rightarrow> uint64 \<times> Simulator" where
  "NextMatchNumber s = (matchCounter s + 1, s\<lparr>matchCounter := matchCounter s + 1\<rparr>)"

definition snapPrice :: "float64 \<Rightarrow> float64 \<Rightarrow> float64" where
  "snapPrice price tick = real_of_int (Round (price / tick)) * tick"

definition makeAddOrderMsg :: "Simulator \<Rightarrow> Order \<Rightarrow> Message" where
  "makeAddOrderMsg s ord =
     zeroMessage\<lparr>Type := (if Order.MPID ord \<noteq> [] then MsgAddOrderMPID else MsgAddOrder),
                 StockLocate := locateCode s, OrderRef := ID ord,
                 Message.Side := Order.Side ord, Message.Shares := Order.Shares ord,
                 Message.Price := Order.Price ord, Message.MPID := Order.MPID ord\<rparr>"

text \<open>
  \<open>if s.rng.Float64() < p { o.MPID = mpids[s.rng.Intn(len(mpids))] }\<close>: the tag drawn
  for a new order, empty when the order stays anonymous.
\<close>

definition drawMPID :: "RNG \<Rightarrow> float64 \<Rightarrow> go_error + (string \<times> RNG)" where
  "drawMPID r p =
     (let (f, r) = Float64 r
      in if f < p
         then case Intn r (int (length mpids)) of
                Inl e \<Rightarrow> Inl e
              | Inr (i, r) \<Rightarrow> Inr (mpids ! nat i, r)
         else Inr ([], r))"

text \<open>
  One order of \<open>Initialize\<close>: draw the size, take the next id, draw the tag, add the
  order to the book and emit its message.
\<close>

definition initOrder ::
  "Simulator \<Rightarrow> byte \<Rightarrow> float64 \<Rightarrow> int \<Rightarrow> go_error + (Message \<times> Simulator)" where
  "initOrder s side price j =
     (case IntRange (rng s) 100 1000 of
        Inl e \<Rightarrow> Inl e
      | Inr (n, r) \<Rightarrow>
          let shares = (word_of_int n :: int32);
              shares = word_of_int (sint shares sdiv 100) * 100;
              (oid, s) = NextOrderID s
          in case drawMPID r 0.3 of
               Inl e \<Rightarrow> Inl e
             | Inr (mpid, r) \<Rightarrow>
                 let ord = \<lparr>ID = oid, Locate = locateCode s, Side = side, Price = price,
                            Shares = shares, Priority = word_of_int j, MPID = mpid\<rparr>;
                     s = s\<lparr>rng := r, book := AddOrder (book s) ord\<rparr>
                 in Inr (makeAddOrderMsg s ord, s))"

text \<open>The inner loop of \<open>Initialize\<close>: \<open>n\<close> iterations are left, the next one has index \<open>j\<close>.\<close>

fun initOrders ::
  "nat \<Rightarrow> int \<Rightarrow> float64 \<Rightarrow> float64 \<Rightarrow> Simulator \<Rightarrow> Message list
     \<Rightarrow> go_error + (Message list \<times> Simulator)" where
  "initOrders 0 j bidPrice askPrice s msgs = Inr (msgs, s)"
| "initOrders (Suc n) j bidPrice askPrice s msgs =
     (case initOrder s SideBuy bidPrice j of
        Inl e \<Rightarrow> Inl e
      | Inr (bidMsg, s) \<Rightarrow>
          (case initOrder s SideSell askPrice j of
             Inl e \<Rightarrow> Inl e
           | Inr (askMsg, s) \<Rightarrow>
               initOrders n (j + 1) bidPrice askPrice s (msgs @ [bidMsg, askMsg])))"

text \<open>The outer loop: \<open>n\<close> levels are left, the next one has index \<open>level\<close>.\<close>

fun initLevels ::
  "nat \<Rightarrow> int \<Rightarrow> float64 \<Rightarrow> Simulator \<Rightarrow> Message list
     \<Rightarrow> go_error + (Message list \<times> Simulator)" where
  "initLevels 0 level refPrice s msgs = Inr (msgs, s)"
| "initLevels (Suc n) level refPrice s msgs =
     (let offset = real_of_int (level + 1) * tickSize s;
          bidPrice = snapPrice (refPrice - offset) (tickSize s);
          askPrice = snapPrice (refPrice + offset) (tickSize s)
      in case initOrders OrdersPerLevel 0 bidPrice askPrice s msgs of
           Inl e \<Rightarrow> Inl e
         | Inr (msgs, s) \<Rightarrow> initLevels n (level + 1) refPrice s msgs)"

definition Initialize :: "Simulator \<Rightarrow> float64 \<Rightarrow> go_error + (Message list \<times> Simulator)" where
  "Initialize s refPrice = initLevels MaxLevels 0 refPrice s []"

text \<open>
  \<open>doAdd\<close> and \<open>doReplenish\<close> differ in three constants only: the largest tick offset,
  the smallest lot count and the probability of a tag.
\<close>

definition addLiquidity ::
  "Simulator \<Rightarrow> float64 \<Rightarrow> int \<Rightarrow> int \<Rightarrow> float64 \<Rightarrow> go_error + (Message list \<times> Simulator)" where
  "addLiquidity s currentPrice maxTicks minLots pTag =
     (let (f, r) = Float64 (rng s);
          side = (if f < 0.5 then SideSell else SideBuy)
      in case IntRange r 1 maxTicks of
           Inl e \<Rightarrow> Inl e
         | Inr (k, r) \<Rightarrow>
             let offset = real_of_int k * tickSize s;
                 price = (if side = SideBuy then snapPrice (currentPrice - offset) (tickSize s)
                          else snapPrice (currentPrice + offset) (tickSize s));
                 price = (if price < tickSize s then tickSize s else price)
             in case IntRange r minLots 10 of
                  Inl e \<Rightarrow> Inl e
                | Inr (n, r) \<Rightarrow>
                    let shares = (word_of_int n :: int32) * 100;
                        (oid, s) = NextOrderID s
                    in case drawMPID r pTag of
                         Inl e \<Rightarrow> Inl e
                       | Inr (mpid, r) \<Rightarrow>
                           let ord = \<lparr>ID = oid, Locate = locateCode s, Side = side,
                                      Price = price, Shares = shares, Priority = 0,
                                      MPID = mpid\<rparr>;
                               s = s\<lparr>rng := r, book := AddOrder (book s) ord\<rparr>
                           in Inr ([makeAddOrderMsg s ord], s))"

definition doAdd :: "Simulator \<Rightarrow> float64 \<Rightarrow> go_error + (Message list \<times> Simulator)" where
  "doAdd s currentPrice = addLiquidity s currentPrice 10 1 0.2"

definition doReplenish :: "Simulator \<Rightarrow> float64 \<Rightarrow> go_error + (Message list \<times> Simulator)" where
  "doReplenish s currentPrice = addLiquidity s currentPrice 5 2 0.25"

text \<open>
  The victim of \<open>doCancel\<close> and \<open>doReplace\<close>: an index drawn over all orders of both
  sides. \<open>None\<close> stands for the early \<open>return nil\<close>s.
\<close>

definition pickOrder :: "Simulator \<Rightarrow> go_error + (Order option \<times> Simulator)" where
  "pickOrder s =
     (let totalBid = TotalBidOrders (book s);
          totalAsk = TotalAskOrders (book s);
          total = totalBid + totalAsk
      in if total = 0 then Inr (None, s)
         else case Intn (rng s) total of
                Inl e \<Rightarrow> Inl e
              | Inr (idx, r) \<Rightarrow>
                  Inr (if idx < totalBid then RandomBidOrder (book s) idx
                       else RandomAskOrder (book s) (idx - totalBid),
                       s\<lparr>rng := r\<rparr>))"

definition doCancel :: "Simulator \<Rightarrow> go_error + (Message list \<times> Simulator)" where
  "doCancel s =
     (case pickOrder s of
        Inl e \<Rightarrow> Inl e
      | Inr (None, s) \<Rightarrow> Inr ([], s)
      | Inr (Some ord, s) \<Rightarrow>
          let orderID = ID ord;
              (removed, b) = RemoveOrder (book s) orderID;
              s = s\<lparr>book := b\<rparr>
          in if removed = None then Inr ([], s)
             else Inr ([zeroMessage\<lparr>Type := MsgOrderDelete, StockLocate := locateCode s,
                                     OrderRef := orderID\<rparr>], s))"

definition doReplace :: "Simulator \<Rightarrow> float64 \<Rightarrow> go_error + (Message list \<times> Simulator)" where
  "doReplace s currentPrice =
     (case pickOrder s of
        Inl e \<Rightarrow> Inl e
      | Inr (None, s) \<Rightarrow> Inr ([], s)
      | Inr (Some ord, s) \<Rightarrow>
          let oldID = ID ord
          in case IntRange (rng s) (- 2) 2 of
               Inl e \<Rightarrow> Inl e
             | Inr (k, r) \<Rightarrow>
                 let shift = real_of_int k * tickSize s;
                     newPrice = snapPrice (Order.Price ord + shift) (tickSize s);
                     newPrice = (if newPrice < tickSize s then tickSize s else newPrice)
                 in case IntRange r 1 10 of
                      Inl e \<Rightarrow> Inl e
                    | Inr (n, r) \<Rightarrow>
                        let newShares = (word_of_int n :: int32) * 100;
                            (newOrder, b, c) =
                               ReplaceOrder (book s) (orderIDCounter s) oldID newPrice newShares;
                            s = s\<lparr>rng := r, book := b, orderIDCounter := c\<rparr>
                        in case newOrder of
                             None \<Rightarrow> Inr ([], s)
                           | Some new \<Rightarrow>
                               Inr ([zeroMessage\<lparr>Type := MsgOrderReplace,
                                                  StockLocate := locateCode s,
                                                  OrderRef := ID new, OrigOrderRef := oldID,
                                                  Message.Shares := newShares,
                                                  Message.Price := newPrice\<rparr>], s))"

text \<open>
  The two branches of \<open>doTrade\<close> are the same code on the opposite side of the book:
  \<open>victim\<close> is the first order of the best level hit, if any, and \<open>aggressor\<close> the side
  written into the trade message.
\<close>

definition execute ::
  "Simulator \<Rightarrow> RNG \<Rightarrow> Order option \<Rightarrow> byte \<Rightarrow> go_error + (Message list \<times> Simulator)" where
  "execute s r victim aggressor =
     (case victim of
        None \<Rightarrow> Inr ([], s\<lparr>rng := r\<rparr>)
      | Some ord \<Rightarrow>
          (case IntRange r 1 (sint (Order.Shares ord) sdiv 100) of
             Inl e \<Rightarrow> Inl e
           | Inr (n, r) \<Rightarrow>
               let tradeShares = (word_of_int n :: int32) * 100;
                   tradeShares = (if sint tradeShares \<le> 0 then Order.Shares ord else tradeShares);
                   (matchNum, s) = NextMatchNumber s;
                   executed = zeroMessage\<lparr>Type := MsgOrderExecuted, StockLocate := locateCode s,
                                          OrderRef := ID ord, Message.Shares := tradeShares,
                                          MatchNumber := matchNum,
                                          Message.Price := Order.Price ord\<rparr>;
                   trade = zeroMessage\<lparr>Type := MsgTrade, StockLocate := locateCode s,
                                       OrderRef := ID ord, Message.Shares := tradeShares,
                                       Message.Price := Order.Price ord,
                                       MatchNumber := matchNum, Message.Side := aggressor\<rparr>;
                   (remaining, b) = ReduceOrder (book s) (ID ord) tradeShares
               in Inr ([executed, trade], s\<lparr>rng := r, book := b\<rparr>)))"

definition doTrade :: "Simulator \<Rightarrow> go_error + (Message list \<times> Simulator)" where
  "doTrade s =
     (let bestBid = BestBid (book s);
          bestAsk = BestAsk (book s)
      in if bestBid = 0 \<or> bestAsk = 0 then Inr ([], s)
         else let (f, r) = Float64 (rng s)
              in if f < 0.5 then execute s r (RandomAskOrder (book s) 0) SideBuy
                 else execute s r (RandomBidOrder (book s) 0) SideSell)"

definition doAction :: "int \<Rightarrow> Simulator \<Rightarrow> float64 \<Rightarrow> go_error + (Message list \<times> Simulator)" where
  "doAction action s currentPrice =
     (if action = 0 then doAdd s currentPrice
      else if action = 1 then doCancel s
      else if action = 2 then doReplace s currentPrice
      else if action = 3 then doTrade s
      else if action = 4 then doReplenish s currentPrice
      else Inr ([], s))"

text \<open>The loop of \<open>Step\<close>, with \<open>n\<close> actions left.\<close>

fun stepLoop ::
  "nat \<Rightarrow> Simulator \<Rightarrow> float64 \<Rightarrow> Message list \<Rightarrow> go_error + (Message list \<times> Simulator)" where
  "stepLoop 0 s currentPrice msgs = Inr (msgs, s)"
| "stepLoop (Suc n) s currentPrice msgs =
     (let (action, r) = WeightedPick (rng s) actionWeights
      in case doAction action (s\<lparr>rng := r\<rparr>) currentPrice of
           Inl e \<Rightarrow> Inl e
         | Inr (actionMsgs, s) \<Rightarrow> stepLoop n s currentPrice (msgs @ actionMsgs))"

definition Step :: "Simulator \<Rightarrow> float64 \<Rightarrow> int \<Rightarrow> go_error + (Message list \<times> Simulator)" where
  "Step s currentPrice numActions = stepLoop (nat numActions) s currentPrice []"

section \<open>Notions used in the statements\<close>

text \<open>The number of order-executed messages in a list.\<close>

definition executions :: "Message list \<Rightarrow> nat" where
  "executions msgs = length (filter (\<lambda>m. Type m = MsgOrderExecuted) msgs)"

text \<open>
  Every order-executed message of the list is directly followed by a trade message
  with its match number, and the match numbers count up from \<open>c\<close>.
\<close>

definition pairedFrom :: "uint64 \<Rightarrow> Message list \<Rightarrow> bool" where
  "pairedFrom c msgs =
     (\<forall>i < length msgs. Type (msgs ! i) = MsgOrderExecuted \<longrightarrow>
        Suc i < length msgs \<and> Type (msgs ! Suc i) = MsgTrade
        \<and> MatchNumber (msgs ! Suc i) = MatchNumber (msgs ! i)
        \<and> MatchNumber (msgs ! i) = c + of_nat (executions (take (Suc i) msgs)))"

text \<open>A book with one resting bid and one resting ask around 100.00.\<close>

definition warmBook :: Book where
  "warmBook =
     AddOrder (AddOrder (NewBook 1 0.01)
       \<lparr>ID = 1, Locate = 1, Side = SideBuy, Price = 99.99, Shares = 300, Priority = 0,
        MPID = []\<rparr>)
       \<lparr>ID = 2, Locate = 1, Side = SideSell, Price = 100.01, Shares = 200, Priority = 0,
        MPID = []\<rparr>"

text \<open>
  Eleven bids at eleven prices, 100 down to 90, with ids 1 to 11, added to an empty
  book in that order: one level more than a side keeps.
\<close>

definition bidAt :: "nat \<Rightarrow> Order" where
  "bidAt i = \<lparr>ID = of_nat (i + 1), Locate = 0, Side = SideBuy, Price = 100 - real i,
              Shares = 100, Priority = 0, MPID = []\<rparr>"

definition elevenBids :: Book where
  "elevenBids = foldl AddOrder (NewBook 1 0.01) (map bidAt [0, 1, 2, 3, 4, 5, 6, 7, 8, 9, 10])"

text \<open>The ids of the orders that lie on the levels of the book, in walking order.\<close>

definition idsOnLevels :: "Book \<Rightarrow> uint64 list" where
  "idsOnLevels b = map ID (concat (map Orders (Bids b @ Asks b)))"

text \<open>The number of orders that lie on the levels of both sides.\<close>

definition bookSize :: "Book \<Rightarrow> nat" where
  "bookSize b = totalOrders (Bids b) + totalOrders (Asks b)"

section \<open>Properties of the generator\<close>

text \<open>
  C9, as amended. The claim says that \<open>Intn(0)\<close> reports \<open>InvalidBound\<close>. The code
  returns the value 0 instead, for every bound \<open>n \<le> 0\<close>, and leaves the generator
  untouched.
\<close>

theorem Intn_nonpositive_returns_zero:
  "n \<le> 0 \<Longrightarrow> Intn r n = Inr (0, r)"
  by (simp add: Intn_def)

theorem Intn_nonpositive_returns_zero_witness:
  "(0::int) \<le> 0 \<and> Intn (NewRNG 42 0) 0 = Inr (0, NewRNG 42 0)"
  using Intn_nonpositive_returns_zero [of 0 "NewRNG 42 0"] by simp

text \<open>C9, as stated, fails: \<open>Intn(0)\<close> on a generator seeded with 42 is not an error.\<close>

theorem Intn_zero_not_InvalidBound:
  "Intn (NewRNG 42 0) 0 \<noteq> Inl InvalidBound"
  by (simp add: Intn_def)

subsection \<open>Bounds that cannot panic\<close>

lemma Intn_returns:
  assumes "n < 2 ^ 32"
  shows "\<exists>v r'. Intn r n = Inr (v, r')"
proof (cases "n \<le> 0")
  case True
  then show ?thesis by (simp add: Intn_def)
next
  case False
  then have "(word_of_int n :: uint32) \<noteq> 0"
    using assms by (auto simp: word_of_int_eq_0_iff dest: zdvd_imp_le)
  then show ?thesis using False by (simp add: Intn_def Let_def split: prod.splits)
qed

lemma IntRange_returns:
  assumes "hi - lo + 1 < 2 ^ 32"
  shows "\<exists>v r'. IntRange r lo hi = Inr (v, r')"
  using Intn_returns [OF assms, of r] by (auto simp: IntRange_def)

lemma drawMPID_returns: "\<exists>m r'. drawMPID r p = Inr (m, r')"
proof -
  obtain f r1 where f: "Float64 r = (f, r1)" by (cases "Float64 r")
  obtain v r2 where "Intn r1 8 = Inr (v, r2)" using Intn_returns [of 8 r1] by auto
  then show ?thesis using f by (simp add: drawMPID_def mpids_def)
qed

section \<open>Properties of the session client\<close>

text \<open>
  C8. A client whose queue is empty and has capacity 2 accepts two sends and refuses the
  third: the third returns false, leaves the queue as it was, and adds exactly 1 to
  the drop counter. As \<open>Send\<close> is a total function here, it returns in every case.
\<close>

theorem Send_backpressure:
  assumes "bufferSize c = 2" and "sendCh c = []"
  shows "(let (ok1, c1) = Send c d1; (ok2, c2) = Send c1 d2; (ok3, c3) = Send c2 d3
          in ok1 \<and> sendCh c1 = [d1] \<and> Dropped c1 = Dropped c
           \<and> ok2 \<and> sendCh c2 = [d1, d2] \<and> Dropped c2 = Dropped c
           \<and> \<not> ok3 \<and> sendCh c3 = sendCh c2 \<and> Dropped c3 = Dropped c + 1)"
  using assms by (simp add: Send_def)

theorem Send_backpressure_witness:
  "(let c = NewClient 0 2;
        (ok1, c1) = Send c ''msg1''; (ok2, c2) = Send c1 ''msg2''; (ok3, c3) = Send c2 ''msg3''
    in ok1 \<and> ok2 \<and> \<not> ok3 \<and> sendCh c3 = [''msg1'', ''msg2''] \<and> Dropped c3 = 1)"
  using Send_backpressure [of "NewClient 0 2" "''msg1''" "''msg2''" "''msg3''"]
  by (simp add: NewClient_def Send_def)

section \<open>Properties of the simulator\<close>

subsection \<open>What each action emits\<close>

lemma addLiquidity_shape:
  assumes "addLiquidity s p a b c = Inr (ms, s')"
  shows "\<exists>m. ms = [m] \<and> (Type m = MsgAddOrder \<or> Type m = MsgAddOrderMPID) \<and> matchCounter s' = matchCounter s"
  using assms
  by (auto simp: addLiquidity_def Let_def NextOrderID_def makeAddOrderMsg_def
           split: sum.splits prod.splits if_splits)

lemma pickOrder_matchCounter:
  "pickOrder s = Inr (v, s') \<Longrightarrow> matchCounter s' = matchCounter s"
  by (auto simp: pickOrder_def Let_def split: sum.splits prod.splits if_splits)

lemma doCancel_shape:
  assumes "doCancel s = Inr (ms, s')"
  shows "(ms = [] \<or> (\<exists>m. ms = [m] \<and> Type m = MsgOrderDelete)) \<and> matchCounter s' = matchCounter s"
  using assms
  by (auto simp: doCancel_def Let_def dest: pickOrder_matchCounter
           split: sum.splits prod.splits if_splits option.splits)

lemma doReplace_shape:
  assumes "doReplace s p = Inr (ms, s')"
  shows "(ms = [] \<or> (\<exists>m. ms = [m] \<and> Type m = MsgOrderReplace)) \<and> matchCounter s' = matchCounter s"
  using assms
  by (auto simp: doReplace_def Let_def dest: pickOrder_matchCounter
           split: sum.splits prod.splits if_splits option.splits)

lemma execute_shape:
  assumes "execute s r v a = Inr (ms, s')"
  shows "(ms = [] \<and> matchCounter s' = matchCounter s) \<or>
         (\<exists>e t. ms = [e, t] \<and> Type e = MsgOrderExecuted \<and> Type t = MsgTrade
            \<and> MatchNumber e = matchCounter s + 1 \<and> MatchNumber t = matchCounter s + 1
            \<and> matchCounter s' = matchCounter s + 1)"
  using assms
  by (auto simp: execute_def Let_def NextMatchNumber_def
           split: sum.splits prod.splits if_splits option.splits)

lemma doTrade_shape:
  assumes "doTrade s = Inr (ms, s')"
  shows "(ms = [] \<and> matchCounter s' = matchCounter s) \<or>
         (\<exists>e t. ms = [e, t] \<and> Type e = MsgOrderExecuted \<and> Type t = MsgTrade
            \<and> MatchNumber e = matchCounter s + 1 \<and> MatchNumber t = matchCounter s + 1
            \<and> matchCounter s' = matchCounter s + 1)"
  using assms
  by (auto simp: doTrade_def Let_def dest: execute_shape
           split: sum.splits prod.splits if_splits option.splits)

lemma executions_append: "executions (xs @ ys) = executions xs + executions ys"
  by (simp add: executions_def)

lemma pairedFrom_append:
  assumes xs: "pairedFrom c xs" and ys: "pairedFrom (c + of_nat (executions xs)) ys"
  shows "pairedFrom c (xs @ ys)"
  unfolding pairedFrom_def
proof (intro allI impI)
  fix i
  assume i: "i < length (xs @ ys)" and e: "Type ((xs @ ys) ! i) = MsgOrderExecuted"
  show "Suc i < length (xs @ ys) \<and> Type ((xs @ ys) ! Suc i) = MsgTrade
        \<and> MatchNumber ((xs @ ys) ! Suc i) = MatchNumber ((xs @ ys) ! i)
        \<and> MatchNumber ((xs @ ys) ! i) = c + of_nat (executions (take (Suc i) (xs @ ys)))"
  proof (cases "i < length xs")
    case True
    with e have "Type (xs ! i) = MsgOrderExecuted" by (simp add: nth_append)
    with xs True have "Suc i < length xs \<and> Type (xs ! Suc i) = MsgTrade
        \<and> MatchNumber (xs ! Suc i) = MatchNumber (xs ! i)
        \<and> MatchNumber (xs ! i) = c + of_nat (executions (take (Suc i) xs))"
      unfolding pairedFrom_def by blast
    then show ?thesis using True by (simp add: nth_append)
  next
    case False
    define j where "j = i - length xs"
    have ij: "i = length xs + j" using False by (simp add: j_def)
    have j: "j < length ys" using i ij by simp
    from e have "Type (ys ! j) = MsgOrderExecuted" by (simp add: ij)
    with ys j have "Suc j < length ys \<and> Type (ys ! Suc j) = MsgTrade
        \<and> MatchNumber (ys ! Suc j) = MatchNumber (ys ! j)
        \<and> MatchNumber (ys ! j) = c + of_nat (executions xs) + of_nat (executions (take (Suc j) ys))"
      unfolding pairedFrom_def by blast
    then show ?thesis
      by (simp add: ij nth_append executions_append add.assoc)
  qed
qed

lemma pairedFrom_Nil: "pairedFrom c []"
  by (simp add: pairedFrom_def)

lemma pairedFrom_no_executions:
  "\<forall>m \<in> set ms. Type m \<noteq> MsgOrderExecuted \<Longrightarrow> pairedFrom c ms"
  by (simp add: pairedFrom_def)

lemma pairedFrom_pair:
  "Type e = MsgOrderExecuted \<Longrightarrow> Type t = MsgTrade \<Longrightarrow> MatchNumber e = c + 1
   \<Longrightarrow> MatchNumber t = c + 1 \<Longrightarrow> pairedFrom c [e, t]"
  by (auto simp: pairedFrom_def executions_def less_Suc_eq)

lemma doAction_paired:
  assumes "doAction a s p = Inr (ms, s')"
  shows "pairedFrom (matchCounter s) ms
         \<and> matchCounter s' = matchCounter s + of_nat (executions ms) \<and> length ms \<le> 2"
proof -
  consider "a = 0" | "a = 1" | "a = 2" | "a = 3" | "a = 4"
    | "a \<noteq> 0" "a \<noteq> 1" "a \<noteq> 2" "a \<noteq> 3" "a \<noteq> 4"
    by blast
  then show ?thesis
  proof cases
    case 1
    with assms have "addLiquidity s p 10 1 0.2 = Inr (ms, s')"
      by (simp add: doAction_def doAdd_def)
    from addLiquidity_shape [OF this] show ?thesis
      by (auto simp: executions_def intro!: pairedFrom_no_executions)
  next
    case 2
    with assms have "doCancel s = Inr (ms, s')" by (simp add: doAction_def)
    from doCancel_shape [OF this] show ?thesis
      by (auto simp: executions_def pairedFrom_Nil intro!: pairedFrom_no_executions)
  next
    case 3
    with assms have "doReplace s p = Inr (ms, s')" by (simp add: doAction_def)
    from doReplace_shape [OF this] show ?thesis
      by (auto simp: executions_def pairedFrom_Nil intro!: pairedFrom_no_executions)
  next
    case 4
    with assms have "doTrade s = Inr (ms, s')" by (simp add: doAction_def)
    from doTrade_shape [OF this] show ?thesis
      by (auto simp: executions_def pairedFrom_Nil intro!: pairedFrom_pair)
  next
    case 5
    with assms have "addLiquidity s p 5 2 0.25 = Inr (ms, s')"
      by (simp add: doAction_def doReplenish_def)
    from addLiquidity_shape [OF this] show ?thesis
      by (auto simp: executions_def intro!: pairedFrom_no_executions)
  next
    case 6
    with assms have "ms = []" "s' = s" by (simp_all add: doAction_def)
    then show ?thesis by (simp add: pairedFrom_Nil executions_def)
  qed
qed

lemma stepLoop_paired:
  assumes "stepLoop n s p acc = Inr (msgs, s')"
      and "pairedFrom c acc" and "matchCounter s = c + of_nat (executions acc)"
  shows "pairedFrom c msgs \<and> matchCounter s' = c + of_nat (executions msgs)
         \<and> length msgs \<le> length acc + 2 * n"
  using assms
proof (induction n arbitrary: s acc)
  case 0
  then show ?case by simp
next
  case (Suc n)
  obtain a r where pick: "WeightedPick (rng s) actionWeights = (a, r)"
    by (cases "WeightedPick (rng s) actionWeights")
  from Suc.prems(1) pick obtain ms s1 where
    act: "doAction a (s\<lparr>rng := r\<rparr>) p = Inr (ms, s1)" and
    rest: "stepLoop n s1 p (acc @ ms) = Inr (msgs, s')"
    by (auto split: sum.splits)
  from doAction_paired [OF act] have
    p: "pairedFrom (matchCounter s) ms" and
    m: "matchCounter s1 = matchCounter s + of_nat (executions ms)" and
    l: "length ms \<le> 2" by simp_all
  have "pairedFrom c (acc @ ms)"
    using Suc.prems(2) p Suc.prems(3) by (auto intro: pairedFrom_append)
  moreover have "matchCounter s1 = c + of_nat (executions (acc @ ms))"
    using m Suc.prems(3) by (simp add: executions_append)
  ultimately have "pairedFrom c msgs \<and> matchCounter s' = c + of_nat (executions msgs)
         \<and> length msgs \<le> length (acc @ ms) + 2 * n"
    using Suc.IH [OF rest] by blast
  then show ?case using l by simp
qed

lemma warmBook_eq:
  "warmBook = \<lparr>Locate = 1, TickSize = 0.01,
     Bids = [\<lparr>Price = 99.99, Orders = [\<lparr>ID = 1, Locate = 1, Side = SideBuy, Price = 99.99,
               Shares = 300, Priority = 0, MPID = []\<rparr>]\<rparr>],
     Asks = [\<lparr>Price = 100.01, Orders = [\<lparr>ID = 2, Locate = 1, Side = SideSell, Price = 100.01,
               Shares = 200, Priority = 0, MPID = []\<rparr>]\<rparr>],
     orderMap = [1 \<mapsto> \<lparr>ID = 1, Locate = 1, Side = SideBuy, Price = 99.99, Shares = 300,
                         Priority = 0, MPID = []\<rparr>,
                 2 \<mapsto> \<lparr>ID = 2, Locate = 1, Side = SideSell, Price = 100.01, Shares = 200,
                         Priority = 0, MPID = []\<rparr>]\<rparr>"
  by (simp add: warmBook_def AddOrder_def NewBook_def addToSide_def sortLevels_def
        MaxLevels_def Let_def)

lemma NewRNG_2: "NewRNG 2 0 = \<lparr>state = 7655465419508447808, inc = 5, hasSpare = False, spare = 0\<rparr>"
  by (simp add: NewRNG_def step_def Let_def)

lemmas trade_eval_defs =
  Step_def NewSimulator_def WeightedPick_def actionWeights_def Float64_def
  Uint32_def step_def doAction_def doTrade_def BestBid_def BestAsk_def execute_def
  RandomBidOrder_def RandomAskOrder_def orderAt_def IntRange_def Intn_def NextMatchNumber_def
  ReduceOrder_def removeFromBook_def Let_def zeroMessage_def

subsection \<open>Executions come in pairs\<close>

text \<open>
  C1. Whenever \<open>Step\<close> returns a list with an order-executed message at position \<open>i\<close>,
  position \<open>i + 1\<close> exists and holds a trade message with the same match number. That
  number is fresh from the match counter: it is the counter's value before the call
  plus the number of executions up to and including this one, and the counter ends at
  its old value plus the number of executions in the list.
\<close>

theorem Step_executed_then_trade:
  assumes "Step s currentPrice numActions = Inr (msgs, s')"
      and "i < length msgs" and "Type (msgs ! i) = MsgOrderExecuted"
  shows "Suc i < length msgs \<and> Type (msgs ! Suc i) = MsgTrade
         \<and> MatchNumber (msgs ! Suc i) = MatchNumber (msgs ! i)
         \<and> MatchNumber (msgs ! i) = matchCounter s + of_nat (executions (take (Suc i) msgs))
         \<and> matchCounter s' = matchCounter s + of_nat (executions msgs)"
proof -
  have "pairedFrom (matchCounter s) msgs \<and> matchCounter s' = matchCounter s + of_nat (executions msgs)
        \<and> length msgs \<le> length ([]::Message list) + 2 * nat numActions"
    using assms(1) unfolding Step_def
    by (rule stepLoop_paired) (simp_all add: pairedFrom_Nil executions_def)
  then show ?thesis using assms(2,3) unfolding pairedFrom_def by blast
qed

theorem Step_executed_then_trade_witness:
  "case Step (NewSimulator (NewRNG 2 0) warmBook 1 0.01 0 0) 100 1 of
     Inl e \<Rightarrow> False
   | Inr (msgs, s') \<Rightarrow>
       0 < length msgs \<and> Type (msgs ! 0) = MsgOrderExecuted
       \<and> Suc 0 < length msgs \<and> Type (msgs ! Suc 0) = MsgTrade
       \<and> MatchNumber (msgs ! Suc 0) = MatchNumber (msgs ! 0)
       \<and> MatchNumber (msgs ! 0) = 1 \<and> matchCounter s' = 1"
proof -
  have "\<exists>msgs s'. Step (NewSimulator (NewRNG 2 0) warmBook 1 0.01 0 0) 100 1 = Inr (msgs, s')
          \<and> 0 < length msgs \<and> Type (msgs ! 0) = MsgOrderExecuted \<and> executions msgs = 1"
    by (simp add: NewRNG_2 warmBook_eq trade_eval_defs executions_def)
  then obtain msgs s' where
    r: "Step (NewSimulator (NewRNG 2 0) warmBook 1 0.01 0 0) 100 1 = Inr (msgs, s')" and
    i: "0 < length msgs" and e: "Type (msgs ! 0) = MsgOrderExecuted" and
    n: "executions msgs = 1"
    by blast
  have "executions (take (Suc 0) msgs) = 1"
    using i e by (cases msgs) (simp_all add: executions_def)
  moreover have "matchCounter (NewSimulator (NewRNG 2 0) warmBook 1 0.01 0 0) = 0"
    by (simp add: NewSimulator_def)
  ultimately have "Suc 0 < length msgs \<and> Type (msgs ! Suc 0) = MsgTrade
       \<and> MatchNumber (msgs ! Suc 0) = MatchNumber (msgs ! 0)
       \<and> MatchNumber (msgs ! 0) = 1 \<and> matchCounter s' = 1"
    using Step_executed_then_trade [OF r i e] n by simp
  then show ?thesis
    unfolding r using i e by simp
qed

section \<open>Properties of the book\<close>

lemmas book_eval_defs =
  AddOrder_def NewBook_def addToSide_def sortLevels_def MaxLevels_def idsOnLevels_def Let_def
  OrderCount_def BidLevels_def AskLevels_def TotalBidOrders_def TotalAskOrders_def
  totalOrders_def GetOrder_def

lemma elevenBids_levels:
  "map PriceLevel.Price (Bids elevenBids) = [100, 99, 98, 97, 96, 95, 94, 93, 92, 91]
   \<and> idsOnLevels elevenBids = [1, 2, 3, 4, 5, 6, 7, 8, 9, 10]"
  by (simp add: elevenBids_def bidAt_def book_eval_defs)

text \<open>
  C3 at the input where it fails. The eleventh bid opens an eleventh level, which
  \<open>addToSide\<close> cuts off again, but \<open>AddOrder\<close> has already put the order into the
  index and nothing takes it out: the index counts 11 orders, the levels hold 10, and
  order 11 is indexed without lying on any level.
\<close>

theorem trim_leaves_order_in_index:
  "OrderCount elevenBids = 11 \<and> BidLevels elevenBids = 10
   \<and> TotalBidOrders elevenBids + TotalAskOrders elevenBids = 10
   \<and> GetOrder elevenBids 11 \<noteq> None \<and> 11 \<notin> set (idsOnLevels elevenBids)"
  by (simp add: elevenBids_def bidAt_def book_eval_defs)

subsection \<open>Sizes of the sides\<close>

lemma foldl_add_length:
  "foldl (\<lambda>n lvl. n + length (Orders lvl)) a levels = a + sum_list (map (\<lambda>l. length (Orders l)) levels)"
  by (induction levels arbitrary: a) simp_all

lemma totalOrders_sum: "totalOrders levels = sum_list (map (\<lambda>l. length (Orders l)) levels)"
  by (simp add: totalOrders_def foldl_add_length)

lemma totalOrders_Cons [simp]: "totalOrders (l # ls) = length (Orders l) + totalOrders ls"
  by (simp add: totalOrders_sum)

lemma totalOrders_Nil [simp]: "totalOrders [] = 0"
  by (simp add: totalOrders_sum)

lemma totalOrders_append [simp]: "totalOrders (xs @ ys) = totalOrders xs + totalOrders ys"
  by (simp add: totalOrders_sum)

lemma totalOrders_insort:
  "totalOrders (insort_key k x xs) = length (Orders x) + totalOrders xs"
  by (induction xs) simp_all

lemma totalOrders_sort: "totalOrders (sort_key k xs) = totalOrders xs"
  by (induction xs) (simp_all add: totalOrders_insort)

lemma totalOrders_take: "totalOrders (take n xs) \<le> totalOrders xs"
proof -
  have "totalOrders (take n xs @ drop n xs) = totalOrders (take n xs) + totalOrders (drop n xs)"
    by (rule totalOrders_append)
  then show ?thesis by simp
qed

lemma appendToLevel_total:
  "appendToLevel levels ord = Some levels' \<Longrightarrow> totalOrders levels' = totalOrders levels + 1"
  by (induction levels arbitrary: levels') (auto split: if_splits)

lemma addToSide_total: "totalOrders (addToSide levels ord d) \<le> totalOrders levels + 1"
proof (cases "appendToLevel levels ord")
  case None
  have "totalOrders (sortLevels d (levels @ [\<lparr>Price = Order.Price ord, Orders = [ord]\<rparr>])) = totalOrders levels + 1"
    by (simp add: sortLevels_def totalOrders_sort)
  moreover have "totalOrders (take MaxLevels (sortLevels d (levels @ [\<lparr>Price = Order.Price ord, Orders = [ord]\<rparr>])))
           \<le> totalOrders (sortLevels d (levels @ [\<lparr>Price = Order.Price ord, Orders = [ord]\<rparr>]))"
    by (rule totalOrders_take)
  ultimately show ?thesis using None by (simp add: addToSide_def Let_def)
next
  case (Some a)
  then show ?thesis by (simp add: addToSide_def appendToLevel_total)
qed

lemma removeFromOrders_length:
  "removeFromOrders os i = Some os' \<Longrightarrow> length os' \<le> length os"
  by (induction os arbitrary: os') (auto split: if_splits)

lemma removeFromSide_total: "totalOrders (removeFromSide levels i) \<le> totalOrders levels"
proof (induction levels)
  case Nil
  then show ?case by simp
next
  case (Cons l ls)
  show ?case
  proof (cases "removeFromOrders (Orders l) i")
    case None
    then show ?thesis using Cons by simp
  next
    case (Some os)
    then show ?thesis using removeFromOrders_length [OF Some] by simp
  qed
qed

lemma setSharesInOrders_length:
  "setSharesInOrders os i v = Some os' \<Longrightarrow> length os' = length os"
  by (induction os arbitrary: os') (auto split: if_splits)

lemma setSharesInSide_total: "totalOrders (setSharesInSide levels i v) = totalOrders levels"
proof (induction levels)
  case Nil
  then show ?case by simp
next
  case (Cons l ls)
  show ?case
  proof (cases "setSharesInOrders (Orders l) i v")
    case None
    then show ?thesis using Cons by simp
  next
    case (Some os)
    then show ?thesis using setSharesInOrders_length [OF Some] by simp
  qed
qed

lemma AddOrder_size: "bookSize (AddOrder b ord) \<le> bookSize b + 1"
  using addToSide_total [of "Bids b" ord True] addToSide_total [of "Asks b" ord False]
  by (simp add: AddOrder_def bookSize_def Let_def)

lemma removeFromBook_size: "bookSize (removeFromBook b ord i) \<le> bookSize b"
  using removeFromSide_total [of "Bids b" i] removeFromSide_total [of "Asks b" i]
  by (simp add: removeFromBook_def bookSize_def Let_def)

lemma RemoveOrder_size: "RemoveOrder b i = (x, b') \<Longrightarrow> bookSize b' \<le> bookSize b"
  using removeFromBook_size [of b _ i] by (auto simp: RemoveOrder_def split: option.splits)

lemma ReduceOrder_size: "ReduceOrder b i v = (x, b') \<Longrightarrow> bookSize b' \<le> bookSize b"
  using removeFromBook_size [of b _ i]
  by (auto simp: ReduceOrder_def Let_def bookSize_def setSharesInSide_total
        split: option.splits if_splits)

lemma ReplaceOrder_size:
  assumes "ReplaceOrder b c i p v = (x, b', c')"
  shows "bookSize b' \<le> bookSize b + 1"
proof (cases "orderMap b i")
  case None
  then show ?thesis using assms by (simp add: ReplaceOrder_def)
next
  case (Some old)
  have "bookSize (AddOrder (removeFromBook b old i) x) \<le> bookSize b + 1" for x
    using AddOrder_size [of "removeFromBook b old i" x] removeFromBook_size [of b old i]
    by linarith
  then show ?thesis using Some assms by (auto simp: ReplaceOrder_def Let_def)
qed

section \<open>The length of a step\<close>

lemma addLiquidity_returns:
  assumes "maxTicks < 2 ^ 32" and "10 - minLots + 1 < 2 ^ 32"
  shows "\<exists>ms s'. addLiquidity s p maxTicks minLots pTag = Inr (ms, s')
           \<and> bookSize (book s') \<le> bookSize (book s) + 1"
proof -
  obtain f r0 where f: "Float64 (rng s) = (f, r0)" by (cases "Float64 (rng s)")
  obtain k r1 where k: "IntRange r0 1 maxTicks = Inr (k, r1)"
    using IntRange_returns [of maxTicks 1 r0] assms(1) by auto
  obtain n r2 where n: "IntRange r1 minLots 10 = Inr (n, r2)"
    using IntRange_returns [of 10 minLots r1] assms(2) by auto
  obtain m r3 where m: "drawMPID r2 pTag = Inr (m, r3)"
    using drawMPID_returns by blast
  show ?thesis
    using f k n m AddOrder_size
    by (simp add: addLiquidity_def Let_def NextOrderID_def)
qed

lemma pickOrder_returns:
  assumes "bookSize (book s) < 2 ^ 32"
  shows "\<exists>v s'. pickOrder s = Inr (v, s') \<and> book s' = book s
           \<and> orderIDCounter s' = orderIDCounter s \<and> tickSize s' = tickSize s"
proof (cases "bookSize (book s) = 0")
  case True
  then show ?thesis
    by (simp add: pickOrder_def bookSize_def TotalBidOrders_def TotalAskOrders_def)
next
  case False
  have "int (bookSize (book s)) < int (2 ^ 32)" using assms by (simp only: of_nat_less_iff)
  then have "int (bookSize (book s)) < 2 ^ 32" by simp
  then obtain i r where "Intn (rng s) (int (bookSize (book s))) = Inr (i, r)"
    using Intn_returns by blast
  then show ?thesis using False
    by (simp add: pickOrder_def bookSize_def TotalBidOrders_def TotalAskOrders_def Let_def)
qed

lemma doCancel_returns:
  assumes "bookSize (book s) < 2 ^ 32"
  shows "\<exists>ms s'. doCancel s = Inr (ms, s') \<and> bookSize (book s') \<le> bookSize (book s) + 1"
proof -
  obtain v s1 where p: "pickOrder s = Inr (v, s1)" and b: "book s1 = book s"
    using pickOrder_returns [OF assms] by blast
  show ?thesis
    using p b
    by (cases v) (auto simp: doCancel_def Let_def split: prod.splits dest!: RemoveOrder_size)
qed

lemma doReplace_returns:
  assumes "bookSize (book s) < 2 ^ 32"
  shows "\<exists>ms s'. doReplace s p = Inr (ms, s') \<and> bookSize (book s') \<le> bookSize (book s) + 1"
proof -
  obtain v s1 where p: "pickOrder s = Inr (v, s1)" and b: "book s1 = book s"
    using pickOrder_returns [OF assms] by blast
  show ?thesis
  proof (cases v)
    case None
    then show ?thesis using p b by (simp add: doReplace_def)
  next
    case (Some ord)
    obtain k r1 where k: "IntRange (rng s1) (- 2) 2 = Inr (k, r1)"
      using IntRange_returns [of 2 "- 2" "rng s1"] by auto
    obtain n r2 where n: "IntRange r1 1 10 = Inr (n, r2)"
      using IntRange_returns [of 10 1 r1] by auto
    show ?thesis
      using p b Some k n
      by (auto simp: doReplace_def Let_def split: prod.splits option.splits
               dest!: ReplaceOrder_size)
  qed
qed

lemma execute_returns:
  "\<exists>ms s'. execute s r v a = Inr (ms, s') \<and> bookSize (book s') \<le> bookSize (book s) + 1"
proof (cases v)
  case None
  then show ?thesis by (simp add: execute_def)
next
  case (Some ord)
  have "\<bar>sint (Order.Shares ord)\<bar> \<le> 2 ^ 31"
    using sint_lt [of "Order.Shares ord"] sint_ge [of "Order.Shares ord"] by simp
  moreover have "sint (Order.Shares ord) sdiv 100 \<le> \<bar>sint (Order.Shares ord)\<bar>"
    using sdiv_int_range [of "sint (Order.Shares ord)" 100] by simp
  ultimately have "sint (Order.Shares ord) sdiv 100 < 2 ^ 32"
    by simp
  then obtain n r1 where n: "IntRange r 1 (sint (Order.Shares ord) sdiv 100) = Inr (n, r1)"
    using IntRange_returns [of "sint (Order.Shares ord) sdiv 100" 1 r] by auto
  show ?thesis
    using Some n
    by (auto simp: execute_def Let_def NextMatchNumber_def split: prod.splits
             dest!: ReduceOrder_size)
qed

lemma doTrade_returns:
  "\<exists>ms s'. doTrade s = Inr (ms, s') \<and> bookSize (book s') \<le> bookSize (book s) + 1"
  using execute_returns [of s]
  by (simp add: doTrade_def Let_def split: prod.splits)

lemma doAction_returns:
  assumes "bookSize (book s) < 2 ^ 32"
  shows "\<exists>ms s'. doAction a s p = Inr (ms, s') \<and> bookSize (book s') \<le> bookSize (book s) + 1"
  using doCancel_returns [OF assms] doReplace_returns [OF assms] doTrade_returns [of s]
    addLiquidity_returns [of 10 1 s p "0.2"] addLiquidity_returns [of 5 2 s p "0.25"]
  by (simp add: doAction_def doAdd_def doReplenish_def)

lemma stepLoop_returns:
  assumes "bookSize (book s) + n < 2 ^ 32"
  shows "\<exists>msgs s'. stepLoop n s p acc = Inr (msgs, s')"
  using assms
proof (induction n arbitrary: s acc)
  case 0
  then show ?case by simp
next
  case (Suc n)
  obtain a r where pick: "WeightedPick (rng s) actionWeights = (a, r)"
    by (cases "WeightedPick (rng s) actionWeights")
  have "bookSize (book (s\<lparr>rng := r\<rparr>)) < 2 ^ 32" using Suc.prems by simp
  from doAction_returns [OF this] obtain ms s1 where
    act: "doAction a (s\<lparr>rng := r\<rparr>) p = Inr (ms, s1)" and
    sz: "bookSize (book s1) \<le> bookSize (book s) + 1"
    by fastforce
  have "bookSize (book s1) + n < 2 ^ 32" using sz Suc.prems by simp
  from Suc.IH [OF this] show ?case using pick act by simp
qed

lemma NewRNG_4: "NewRNG 4 0 = \<lparr>state = 8946794615170102610, inc = 9, hasSpare = False, spare = 0\<rparr>"
  by (simp add: NewRNG_def step_def Let_def)

text \<open>
  C5, as amended. The claim bounds the length of the list by 1 and \<open>N\<close>. An action
  emits no message (a cancel, replace or trade that finds nothing to act on), one
  message, or two (a trade), so the list of a returning \<open>Step\<close> has between 0 and
  \<open>2 * N\<close> messages; and \<open>Step\<close> does return as long as the levels hold fewer than
  \<open>2 ^ 32 - N\<close> orders, which keeps the bound passed to \<open>Intn\<close> from wrapping to 0.
\<close>

theorem Step_length_at_most_twice:
  assumes "1 \<le> N"
  shows "(\<forall>msgs s'. Step s currentPrice N = Inr (msgs, s') \<longrightarrow> int (length msgs) \<le> 2 * N)
       \<and> (bookSize (book s) + nat N < 2 ^ 32 \<longrightarrow> (\<exists>msgs s'. Step s currentPrice N = Inr (msgs, s')))"
proof (intro conjI allI impI)
  fix msgs s'
  assume "Step s currentPrice N = Inr (msgs, s')"
  then have "length msgs \<le> length ([]::Message list) + 2 * nat N"
    unfolding Step_def
    using stepLoop_paired [of "nat N" s currentPrice "[]" msgs s' "matchCounter s"]
    by (simp add: pairedFrom_Nil executions_def)
  then show "int (length msgs) \<le> 2 * N" using assms by simp
next
  assume "bookSize (book s) + nat N < 2 ^ 32"
  then show "\<exists>msgs s'. Step s currentPrice N = Inr (msgs, s')"
    unfolding Step_def by (rule stepLoop_returns)
qed

theorem Step_length_at_most_twice_witness:
  "(1::int) \<le> 1
   \<and> bookSize (book (NewSimulator (NewRNG 2 0) warmBook 1 0.01 0 0)) + nat 1 < 2 ^ 32
   \<and> (\<exists>msgs s'. Step (NewSimulator (NewRNG 2 0) warmBook 1 0.01 0 0) 100 1 = Inr (msgs, s')
         \<and> int (length msgs) \<le> 2 * 1)"
proof -
  have b: "bookSize (book (NewSimulator (NewRNG 2 0) warmBook 1 0.01 0 0)) + nat 1 < 2 ^ 32"
    by (simp add: NewSimulator_def warmBook_eq bookSize_def)
  show ?thesis
    using Step_length_at_most_twice [of 1 "NewSimulator (NewRNG 2 0) warmBook 1 0.01 0 0" 100] b
    by auto
qed

text \<open>
  C5, as stated, fails in both directions with \<open>N = 1\<close>. On an empty book a generator
  seeded with 4 picks a cancel first, which finds no order: no message. On the warm
  book a generator seeded with 2 picks a trade first: two messages.
\<close>

theorem Step_length_not_between_1_and_N:
  "map_sum id fst (Step (NewSimulator (NewRNG 4 0) (NewBook 1 0.01) 1 0.01 0 0) 100 1) = Inr []
   \<and> map_sum id (map Type \<circ> fst) (Step (NewSimulator (NewRNG 2 0) warmBook 1 0.01 0 0) 100 1)
       = Inr [MsgOrderExecuted, MsgTrade]"
proof
  show "map_sum id fst (Step (NewSimulator (NewRNG 4 0) (NewBook 1 0.01) 1 0.01 0 0) 100 1) = Inr []"
    by (simp add: NewRNG_4 NewBook_def Step_def NewSimulator_def WeightedPick_def
          actionWeights_def Float64_def Uint32_def step_def doAction_def doCancel_def
          pickOrder_def TotalBidOrders_def TotalAskOrders_def totalOrders_def Let_def)
  show "map_sum id (map Type \<circ> fst) (Step (NewSimulator (NewRNG 2 0) warmBook 1 0.01 0 0) 100 1)
       = Inr [MsgOrderExecuted, MsgTrade]"
    by (simp add: NewRNG_2 warmBook_eq trade_eval_defs)
qed

end
